theory Spec2Isabelle
  imports Complex_Main "HOL-Library.Word"
begin

section \<open>Grid reference decoder (utils/update\_data/geo.py)\<close>

text \<open>
  Python strings are modelled as \<^typ>\<open>string\<close>. The model covers ASCII text: \<open>upper\<close>
  maps \<open>a..z\<close> to \<open>A..Z\<close> and leaves every other character alone, \<open>\d\<close> is
  \<open>0..9\<close> and \<open>[A-Z]\<close> is the ASCII range. Beyond ASCII Python's \<open>upper\<close> does
  more (the sharp s becomes \<open>SS\<close>, so a string of one such character and four digits
  decodes): such strings are outside the model, and a statement about an arbitrary
  string assumes that its characters are ASCII. A value that is not a string is
  \<open>NonStr\<close>: \<open>gridref.upper()\<close> or \<open>re.match\<close> raises AttributeError or TypeError
  on it, which the source turns into BNGError.
\<close>

datatype pyobj = Str string | NonStr

text \<open>
  The source has one exception class, BNGError, raised with two messages: the bad-input
  message (which quotes the argument) and the invalid-grid-square message (which quotes
  the region code).
\<close>

datatype BNGError = Bad_input pyobj | Invalid_square string

definition upper_char :: "char \<Rightarrow> char" where
  "upper_char c =
     (let n = (of_char c :: nat) in if 97 \<le> n \<and> n \<le> 122 then char_of (n - 32) else c)"

definition upper :: "string \<Rightarrow> string" where
  "upper s = map upper_char s"

definition is_ascii :: "char \<Rightarrow> bool" where
  "is_ascii c = ((of_char c :: nat) < 128)"

definition is_AZ :: "char \<Rightarrow> bool" where
  "is_AZ c = (65 \<le> (of_char c :: nat) \<and> (of_char c :: nat) \<le> 90)"

definition is_digit :: "char \<Rightarrow> bool" where
  "is_digit c = (48 \<le> (of_char c :: nat) \<and> (of_char c :: nat) \<le> 57)"

text \<open>\<open>int(s)\<close> on a run of decimal digits.\<close>

definition py_int :: "string \<Rightarrow> int" where
  "py_int s = foldl (\<lambda>acc c. 10 * acc + (int (of_char c) - 48)) 0 s"

subsection \<open>The region table\<close>

definition region_rows :: "string list list" where
  "region_rows =
    [[''HL'', ''HM'', ''HN'', ''HO'', ''HP'', ''JL'', ''JM''],
     [''HQ'', ''HR'', ''HS'', ''HT'', ''HU'', ''JQ'', ''JR''],
     [''HV'', ''HW'', ''HX'', ''HY'', ''HZ'', ''JV'', ''JW''],
     [''NA'', ''NB'', ''NC'', ''ND'', ''NE'', ''OA'', ''OB''],
     [''NF'', ''NG'', ''NH'', ''NJ'', ''NK'', ''OF'', ''OG''],
     [''NL'', ''NM'', ''NN'', ''NO'', ''NP'', ''OL'', ''OM''],
     [''NQ'', ''NR'', ''NS'', ''NT'', ''NU'', ''OQ'', ''OR''],
     [''NV'', ''NW'', ''NX'', ''NY'', ''NZ'', ''OV'', ''OW''],
     [''SA'', ''SB'', ''SC'', ''SD'', ''SE'', ''TA'', ''TB''],
     [''SF'', ''SG'', ''SH'', ''SJ'', ''SK'', ''TF'', ''TG''],
     [''SL'', ''SM'', ''SN'', ''SO'', ''SP'', ''TL'', ''TM''],
     [''SQ'', ''SR'', ''SS'', ''ST'', ''SU'', ''TQ'', ''TR''],
     [''SV'', ''SW'', ''SX'', ''SY'', ''SZ'', ''TV'', ''TW'']]"

text \<open>\<open>list(zip(*regions[::-1]))\<close>: reverse the rows, then transpose.\<close>

definition regions :: "string list list" where
  "regions = transpose (rev region_rows)"

text \<open>
  The two nested loops that fill the dictionary, in the order of the source. The
  offsets \<open>1e5 * i\<close> are floats with an integral value below \<open>2^53\<close>, so they, and
  the later \<open>int(...)\<close> of a sum with them, are exact; they are modelled as integers.
\<close>

definition offset_entries :: "(string \<times> int \<times> int) list" where
  "offset_entries =
     concat (map (\<lambda>i. map (\<lambda>j. (regions ! i ! j, (100000 * int i, 100000 * int j)))
                          [0..<length (regions ! 0)])
                 [0..<length regions])"

definition offset_map :: "string \<rightharpoonup> int \<times> int" where
  "offset_map = fold (\<lambda>(k, v) m. m(k \<mapsto> v)) offset_entries Map.empty"

subsection \<open>The pattern\<close>

text \<open>
  \<open>re.match(r'^([A-Z]{2})(\d{4}|\d{6}|\d{8}|\d{10})$', s)\<close>. Without the MULTILINE flag
  \<open>$\<close> matches at the end of the string and also just before a newline that is the
  last character. The alternatives are tried in the order written.
\<close>

definition at_dollar :: "string \<Rightarrow> bool" where
  "at_dollar r = (r = [] \<or> r = [CHR 0x0A])"

fun try_alternatives :: "nat list \<Rightarrow> string \<Rightarrow> string option" where
  "try_alternatives [] r = None"
| "try_alternatives (k # ks) r =
     (if k \<le> length r \<and> list_all is_digit (take k r) \<and> at_dollar (drop k r)
      then Some (take k r) else try_alternatives ks r)"

fun re_match :: "string \<Rightarrow> (string \<times> string) option" where
  "re_match (a # b # r) =
     (if is_AZ a \<and> is_AZ b
      then (case try_alternatives [4, 6, 8, 10] r of
              None \<Rightarrow> None
            | Some coords \<Rightarrow> Some ([a, b], coords))
      else None)"
| "re_match _ = None"

subsection \<open>to\_osgb36\<close>

definition to_osgb36 :: "pyobj \<Rightarrow> BNGError + (int \<times> int \<times> int)" where
  "to_osgb36 gridref =
     (case gridref of
        NonStr \<Rightarrow> Inl (Bad_input gridref)
      | Str s \<Rightarrow>
          (case re_match (upper s) of
             None \<Rightarrow> Inl (Bad_input gridref)
           | Some (region, coords) \<Rightarrow>
               (case offset_map region of
                  None \<Rightarrow> Inl (Invalid_square region)
                | Some (x_offset, y_offset) \<Rightarrow>
                    (let half_figs = length coords div 2;
                         easting = py_int (take half_figs coords);
                         northing = py_int (drop half_figs coords);
                         scale_factor = 10 ^ (5 - half_figs);
                         x = easting * scale_factor + x_offset;
                         y = northing * scale_factor + y_offset;
                         resolution = 10 ^ (6 - half_figs)
                     in Inr (x, y, resolution)))))"

section \<open>Spatial partitioner (utils/update\_data/main.py, tile\_gdf)\<close>

text \<open>
  Coordinates are real numbers: the floating-point arithmetic of the source is taken as
  exact, and a bounding box with nan entries (an empty frame) is outside the model.
  A shapely \<open>box(xmin, ymin, xmax, ymax)\<close> is kept as its four numbers.
\<close>

datatype geometry = box (bxmin: real) (bymin: real) (bxmax: real) (bymax: real)

text \<open>
  The geometry library is a parameter: reprojection, the bounding box of a frame, the
  two repairs, the union of a frame's geometries and the intersection test (which
  counts touching) are what geopandas and shapely provide.
\<close>

record ('g, 'u) geo_ops =
  to_crs :: "'g \<Rightarrow> int \<Rightarrow> 'g"
  total_bounds :: "'g \<Rightarrow> real \<times> real \<times> real \<times> real"
  make_valid :: "'g \<Rightarrow> 'g"
  buffer :: "'g \<Rightarrow> real \<Rightarrow> 'g"
  union_all :: "'g \<Rightarrow> 'u"
  intersects :: "geometry \<Rightarrow> 'u \<Rightarrow> bool"

text \<open>\<open>v % s\<close> on floats: the result has the sign of the divisor.\<close>

definition py_mod :: "real \<Rightarrow> real \<Rightarrow> real" where
  "py_mod v s = v - s * of_int \<lfloor>v / s\<rfloor>"

text \<open>Lines 69 to 72: the bounding box conformed to the side length.\<close>

definition conform_min :: "real \<Rightarrow> real \<Rightarrow> real" where
  "conform_min v s = v - py_mod v s"

definition conform_max :: "real \<Rightarrow> real \<Rightarrow> real" where
  "conform_max v s = v + (s - py_mod v s)"

text \<open>\<open>np.arange(start, stop, step)\<close>: \<open>ceil((stop - start) / step)\<close> values.\<close>

definition arange :: "real \<Rightarrow> real \<Rightarrow> real \<Rightarrow> real list" where
  "arange start stop step =
     map (\<lambda>k. start + real k * step) [0..<nat \<lceil>(stop - start) / step\<rceil>]"

text \<open>
  \<open>xx, yy = np.meshgrid(x, y)\<close> followed by \<open>flatten()\<close>: \<open>xx\<close> has one copy of
  \<open>x\<close> per element of \<open>y\<close>, and row \<open>j\<close> of \<open>yy\<close> repeats \<open>y[j]\<close>.
\<close>

definition xx_flatten :: "real list \<Rightarrow> real list \<Rightarrow> real list" where
  "xx_flatten x y = concat (replicate (length y) x)"

definition yy_flatten :: "real list \<Rightarrow> real list \<Rightarrow> real list" where
  "yy_flatten x y = concat (map (\<lambda>v. replicate (length x) v) y)"

text \<open>
  With \<open>side_length = 0\<close> the remainders are nan and \<open>np.arange\<close> raises; that is the
  only error of the model.
\<close>

datatype tile_error = Arange_failed

definition tile_gdf ::
  "('g, 'u) geo_ops \<Rightarrow> 'g \<Rightarrow> int \<Rightarrow> int \<Rightarrow> int \<Rightarrow> int \<Rightarrow> bool \<Rightarrow> tile_error + geometry list"
where
  "tile_gdf ops gdf0 side_length tile_crs origin_x origin_y filter_empty =
     (let gdf = to_crs ops gdf0 tile_crs;
          (minx0, miny0, maxx0, maxy0) = total_bounds ops gdf
      in if side_length = 0 then Inl Arange_failed
         else
           (let s = real_of_int side_length;
                minx = conform_min minx0 s;
                miny = conform_min miny0 s;
                maxx = conform_max maxx0 s;
                maxy = conform_max maxy0 s;
                x = arange minx maxx s;
                y = arange miny maxy s;
                xmins = xx_flatten x y;
                ymins = yy_flatten x y;
                xmaxs = map (\<lambda>v. v + s) xmins;
                ymaxs = map (\<lambda>v. v + s) ymins;
                boxes = map (\<lambda>(xmin, ymin, xmax, ymax). box xmin ymin xmax ymax)
                            (zip xmins (zip ymins (zip xmaxs ymaxs)))
            in if filter_empty
               then (let gdf1 = make_valid ops gdf;
                         gdf2 = buffer ops gdf1 0
                     in Inr (filter (\<lambda>b. intersects ops b (union_all ops gdf2)) boxes))
               else Inr boxes))"

text \<open>
  A point lies in a cell when it is inside the half-open square: with that reading the
  cells of a grid share no point.
\<close>

definition in_cell :: "geometry \<Rightarrow> real \<times> real \<Rightarrow> bool" where
  "in_cell c p = (bxmin c \<le> fst p \<and> fst p < bxmax c \<and> bymin c \<le> snd p \<and> snd p < bymax c)"

text \<open>
  A grid cell, by the corner of the grid and its column \<open>i\<close> and row \<open>j\<close>.
\<close>

definition cell_at :: "real \<Rightarrow> real \<Rightarrow> real \<Rightarrow> nat \<Rightarrow> nat \<Rightarrow> geometry" where
  "cell_at lx ly s i j =
     box (lx + real i * s) (ly + real j * s) (lx + real i * s + s) (ly + real j * s + s)"

text \<open>
  A boundary made of two axis-aligned rectangles in the target reference system, for the
  examples: reprojection and the repairs leave it alone, its bounding box is the box
  around both, and a cell intersects it when it overlaps or touches one of the two.
\<close>

definition rect_meets :: "geometry \<Rightarrow> geometry \<Rightarrow> bool" where
  "rect_meets b u = (bxmin b \<le> bxmax u \<and> bxmin u \<le> bxmax b \<and>
                     bymin b \<le> bymax u \<and> bymin u \<le> bymax b)"

definition two_rect_ops :: "(geometry \<times> geometry, geometry \<times> geometry) geo_ops" where
  "two_rect_ops =
     \<lparr>to_crs = (\<lambda>g c. g),
      total_bounds = (\<lambda>(g, h). (min (bxmin g) (bxmin h), min (bymin g) (bymin h),
                                  max (bxmax g) (bxmax h), max (bymax g) (bymax h))),
      make_valid = (\<lambda>g. g),
      buffer = (\<lambda>g d. g),
      union_all = (\<lambda>g. g),
      intersects = (\<lambda>b (g, h). rect_meets b g \<or> rect_meets b h)\<rparr>"

text \<open>
  The expanded box following the words of the specification: the bounding box expanded
  outward to the nearest multiples of the side length relative to the origin, and the
  number of cells that tile it.
\<close>

definition spec_expanded_bounds ::
  "real \<times> real \<times> real \<times> real \<Rightarrow> real \<Rightarrow> real \<times> real \<Rightarrow> real \<times> real \<times> real \<times> real"
where
  "spec_expanded_bounds b s origin =
     (let (minx, miny, maxx, maxy) = b; (ox, oy) = origin
      in (ox + s * of_int \<lfloor>(minx - ox) / s\<rfloor>, oy + s * of_int \<lfloor>(miny - oy) / s\<rfloor>,
          ox + s * of_int \<lceil>(maxx - ox) / s\<rceil>, oy + s * of_int \<lceil>(maxy - oy) / s\<rceil>))"

definition spec_cell_count :: "real \<times> real \<times> real \<times> real \<Rightarrow> real \<Rightarrow> real \<times> real \<Rightarrow> nat" where
  "spec_cell_count b s origin =
     (let (lx, ly, hx, hy) = spec_expanded_bounds b s origin
      in nat \<lceil>(hx - lx) / s\<rceil> * nat \<lceil>(hy - ly) / s\<rceil>)"

section \<open>Harvest: deduplication and geometry (utils/update\_data/main.py)\<close>

text \<open>
  A data frame is the list of its rows. Of a harvested row only the \<open>tile_id\<close> column
  is read; the other flattened columns are kept together as one value, and two rows are
  equal when all their columns are.
\<close>

record 'c product_row =
  tile_id :: pyobj
  columns :: 'c

text \<open>
  \<open>DataFrame.duplicated()\<close> with its default \<open>keep='first'\<close>: a row is marked when an
  equal row stands before it.
\<close>

fun duplicated_from :: "'a list \<Rightarrow> 'a list \<Rightarrow> bool list" where
  "duplicated_from seen [] = []"
| "duplicated_from seen (r # rs) = (r \<in> set seen) # duplicated_from (r # seen) rs"

definition duplicated :: "'a list \<Rightarrow> bool list" where
  "duplicated df = duplicated_from [] df"

text \<open>\<open>df[mask]\<close> with a boolean mask.\<close>

definition mask_select :: "'a list \<Rightarrow> bool list \<Rightarrow> 'a list" where
  "mask_select df m = map fst (filter snd (zip df m))"

text \<open>\<open>products_df[~products_df.duplicated()]\<close>.\<close>

definition drop_duplicated :: "'a list \<Rightarrow> 'a list" where
  "drop_duplicated df = mask_select df (map Not (duplicated df))"

text \<open>
  \<open>[to_osgb36(tile) for tile in df.tile_id]\<close>: the first reference that does not decode
  raises.
\<close>

fun decode_all :: "pyobj list \<Rightarrow> BNGError + (int \<times> int \<times> int) list" where
  "decode_all [] = Inr []"
| "decode_all (t # ts) =
     (case to_osgb36 t of
        Inl e \<Rightarrow> Inl e
      | Inr d \<Rightarrow> (case decode_all ts of Inl e \<Rightarrow> Inl e | Inr ds \<Rightarrow> Inr (d # ds)))"

text \<open>
  \<open>x, y, resolution = zip(*[...])\<close> raises ValueError on an empty frame, where there is
  nothing to unpack.
\<close>

datatype harvest_error = Decode_error BNGError | ValueError

record 'c geo_frame =
  frame_rows :: "('c product_row \<times> geometry) list"
  crs :: string

definition parse_geometry :: "'c product_row list \<Rightarrow> harvest_error + 'c geo_frame" where
  "parse_geometry df =
     (case decode_all (map tile_id df) of
        Inl e \<Rightarrow> Inl (Decode_error e)
      | Inr decoded \<Rightarrow>
          if decoded = [] then Inl ValueError
          else
            (let x = map (\<lambda>(x, y, r). real_of_int x) decoded;
                 y = map (\<lambda>(x, y, r). real_of_int y) decoded;
                 resolution = map (\<lambda>(x, y, r). real_of_int r) decoded;
                 resolution = map (\<lambda>r. r / 2) resolution;
                 xmin = x;
                 xmax = map (\<lambda>(a, b). a + b) (zip x resolution);
                 ymin = y;
                 ymax = map (\<lambda>(a, b). a + b) (zip y resolution);
                 geometry = map (\<lambda>(xmin, ymin, xmax, ymax). box xmin ymin xmax ymax)
                                (zip xmin (zip ymin (zip xmax ymax)))
             in Inr \<lparr>frame_rows = zip df geometry, crs = ''EPSG:27700''\<rparr>))"

text \<open>
  Lines 197 and 198 of \<open>main\<close>: what is written to the index, from the frame that the
  ingestion returned.
\<close>

definition products_index :: "'c product_row list \<Rightarrow> harvest_error + 'c geo_frame" where
  "products_index products_df = parse_geometry (drop_duplicated products_df)"

section \<open>Tile endpoint (imagery\_api/main.py)\<close>

text \<open>
  A pixel array of shape \<open>(bands, rows, columns)\<close> is a list of bands, each a list of
  rows. The samples read from the raster are integers; \<open>uint8\<close> is \<^typ>\<open>8 word\<close>.
\<close>

text \<open>\<open>np.clip(v, 0, 255).astype(np.uint8)\<close> on one sample.\<close>

definition clip_u8 :: "int \<Rightarrow> 8 word" where
  "clip_u8 v = word_of_int (min (max v 0) 255)"

text \<open>
  Lines 51 to 53 and the transposition of line 55, for a read of shape
  \<open>(3, n, n)\<close>: clip, the mask \<open>(data != 0).any(axis=0) * 255\<close>, the mask appended as a
  fourth band, and \<open>transpose(1, 2, 0)\<close>, which makes the band the last index.
\<close>

definition composite :: "nat \<Rightarrow> int list list list \<Rightarrow> 8 word list list list" where
  "composite n data0 =
     (let data = map (map (map clip_u8)) data0;
          mask = map (\<lambda>i. map (\<lambda>j. (if list_ex (\<lambda>band. band ! i ! j \<noteq> 0) data
                                         then 1 else 0) * (255 :: 8 word))
                              [0..<n])
                     [0..<n];
          data = data @ [mask]
      in map (\<lambda>i. map (\<lambda>j. map (\<lambda>band. band ! i ! j) data) [0..<n]) [0..<n])"

text \<open>
  The PNG encoding is lossless, so the body of a response is kept as the RGBA array
  that is encoded. What the handler returns is a response with status 200; an
  exception that leaves the handler is the left summand.
\<close>

record response =
  status :: nat
  body :: "8 word list list list"
  headers :: "(string \<times> string) list"
  media_type :: string

datatype py_exception = InvalidZoomError | IndexError | Raised string

text \<open>
  The surroundings of the handler: the \<open>*.tif\<close> files that the glob over
  \<open>data/cogs\<close> returns, and the windowed read of three bands at a tile (opening the
  file, the bounds of the tile, the window and the read itself), which either raises
  or returns an array of the requested shape.
\<close>

record environment =
  cogs :: "string list"
  read_window :: "string \<Rightarrow> int \<times> int \<times> int \<Rightarrow> nat \<Rightarrow> py_exception + int list list list"

definition blank_response :: response where
  "blank_response =
     \<lparr>status = 200,
      body = replicate 256 (replicate 256 (replicate 4 0)),
      headers = [],
      media_type = ''image/png''\<rparr>"

text \<open>
  \<open>get_tile\<close>. Two statements run before the \<open>try\<close> block is entered:
  \<open>mercantile.Tile(x=x, y=y, z=z)\<close>, which raises InvalidZoomError for a negative
  zoom, and the first element of the glob. The read and the compositing are inside the
  block.
\<close>

definition get_tile :: "environment \<Rightarrow> int \<Rightarrow> int \<Rightarrow> int \<Rightarrow> py_exception + response" where
  "get_tile env x y z =
     (if z < 0 then Inl InvalidZoomError
      else
        (let tile = (x, y, z)
         in case cogs env of
              [] \<Rightarrow> Inl IndexError
            | tile_path # _ \<Rightarrow>
                (let image_size = 256
                 in case read_window env tile_path tile image_size of
                      Inl e \<Rightarrow> Inr blank_response
                    | Inr data \<Rightarrow>
                        Inr \<lparr>status = 200,
                             body = composite image_size data,
                             headers = [(''Content-Disposition'',
                                         ''inline; filename='' @ [CHR 0x22] @ ''test.png'' @ [CHR 0x22])],
                             media_type = ''image/png''\<rparr>)))"

section \<open>Properties of the decoder\<close>

lemma upper_char_digit: "is_digit c \<Longrightarrow> upper_char c = c"
  by (simp add: is_digit_def upper_char_def Let_def)

lemma upper_digits: "list_all is_digit s \<Longrightarrow> upper s = s"
  by (induction s) (simp_all add: upper_def upper_char_digit)

lemma fold_upd_Some:
  "fold (\<lambda>(k, v) m. m(k \<mapsto> v)) es m0 key = Some v \<Longrightarrow>
     m0 key = Some v \<or> key \<in> fst ` set es"
  by (induction es arbitrary: m0) (force split: if_splits)+

lemma offset_keys_AZ: "list_all (\<lambda>(k, v). length k = 2 \<and> list_all is_AZ k) offset_entries"
  by code_simp

lemma offset_map_key:
  assumes "offset_map key = Some v"
  shows "length key = 2 \<and> list_all is_AZ key"
proof -
  from assms have "key \<in> fst ` set offset_entries"
    unfolding offset_map_def by (auto dest: fold_upd_Some)
  then obtain w where "(key, w) \<in> set offset_entries" by auto
  with offset_keys_AZ show ?thesis
    by (auto simp: list_all_iff)
qed

lemma at_dollar_long: "2 \<le> length r \<Longrightarrow> \<not> at_dollar r"
  by (auto simp: at_dollar_def)

lemma try_alt:
  assumes "length r = 2 * h" "h \<in> {2, 3, 4, 5}" "list_all is_digit r"
  shows "try_alternatives [4, 6, 8, 10] r = Some r"
proof -
  have dig: "\<And>k. list_all is_digit (take k r)"
    using assms(3) by (auto simp: list_all_iff dest: in_set_takeD)
  have nd: "\<And>k. k + 2 \<le> length r \<Longrightarrow> \<not> at_dollar (drop k r)"
    by (rule at_dollar_long) simp
  have e: "at_dollar []" by (simp add: at_dollar_def)
  from assms(2) consider "h = 2" | "h = 3" | "h = 4" | "h = 5" by auto
  then show ?thesis
    using assms(1,3) dig nd e by cases simp_all
qed

text \<open>
  What the pattern accepts, and which of the three outcomes a call on an ASCII string
  has: the \<open>e\<close> below is what follows the digits, empty or one newline.
\<close>

lemma try_alternatives_SomeD:
  "try_alternatives ks r = Some c \<Longrightarrow>
     \<exists>k\<in>set ks. k \<le> length r \<and> c = take k r \<and> list_all is_digit c \<and> at_dollar (drop k r)"
  by (induction ks) (auto split: if_splits)

lemma try_alternatives_Some:
  "try_alternatives [4, 6, 8, 10] r = Some c \<longleftrightarrow>
     (\<exists>e. r = c @ e \<and> length c \<in> {4, 6, 8, 10} \<and> list_all is_digit c \<and> at_dollar e)"
proof
  assume "try_alternatives [4, 6, 8, 10] r = Some c"
  from try_alternatives_SomeD [OF this]
  obtain k where k: "k \<in> set [4, 6, 8, 10]" "k \<le> length r" "c = take k r"
    "list_all is_digit c" "at_dollar (drop k r)" by blast
  have "r = c @ drop k r" using k(3) by simp
  moreover have "length c = k" using k(2,3) by simp
  moreover have "k \<in> {4, 6, 8, 10}" using k(1) by simp
  ultimately show "\<exists>e. r = c @ e \<and> length c \<in> {4, 6, 8, 10} \<and> list_all is_digit c \<and> at_dollar e"
    using k(4,5) by blast
next
  assume "\<exists>e. r = c @ e \<and> length c \<in> {4, 6, 8, 10} \<and> list_all is_digit c \<and> at_dollar e"
  then obtain e where e: "r = c @ e" "length c \<in> {4, 6, 8, 10}" "list_all is_digit c" "at_dollar e"
    by blast
  have short: "\<And>k. k + 2 \<le> length c \<Longrightarrow> \<not> at_dollar (drop k c @ e)"
    by (rule at_dollar_long) simp
  have dig: "\<And>k. list_all is_digit (take k c)"
    using e(3) by (auto simp: list_all_iff dest: in_set_takeD)
  from e(2) consider "length c = 4" | "length c = 6" | "length c = 8" | "length c = 10" by auto
  then show "try_alternatives [4, 6, 8, 10] r = Some c"
    using short dig e(3,4) by cases (simp_all add: e(1))
qed

lemma re_match_Some:
  "re_match t = Some (region, coords) \<longleftrightarrow>
     (\<exists>a b e. t = a # b # coords @ e \<and> region = [a, b] \<and> is_AZ a \<and> is_AZ b \<and>
        length coords \<in> {4, 6, 8, 10} \<and> list_all is_digit coords \<and> at_dollar e)"
proof (cases t)
  case Nil
  then show ?thesis by simp
next
  case (Cons a t')
  show ?thesis
  proof (cases t')
    case Nil
    with Cons show ?thesis by simp
  next
    case (Cons b r)
    with \<open>t = a # t'\<close> have t: "t = a # b # r" by simp
    have "re_match t = Some (region, coords) \<longleftrightarrow>
        is_AZ a \<and> is_AZ b \<and> region = [a, b] \<and> try_alternatives [4, 6, 8, 10] r = Some coords"
      unfolding t by (auto split: option.splits)
    also have "\<dots> \<longleftrightarrow> (\<exists>a' b' e. t = a' # b' # coords @ e \<and> region = [a', b'] \<and>
          is_AZ a' \<and> is_AZ b' \<and>
          length coords \<in> {4, 6, 8, 10} \<and> list_all is_digit coords \<and> at_dollar e)"
      unfolding t try_alternatives_Some by blast
    finally show ?thesis .
  qed
qed

lemma to_osgb36_non_string: "to_osgb36 NonStr = Inl (Bad_input NonStr)"
  by (simp add: to_osgb36_def)

lemma to_osgb36_bad_input_iff:
  assumes "list_all is_ascii s"
  shows "(\<exists>m. to_osgb36 (Str s) = Inl (Bad_input m)) \<longleftrightarrow> re_match (upper s) = None"
  by (auto simp: to_osgb36_def Let_def split: option.splits)

lemma to_osgb36_invalid_square_iff:
  assumes "list_all is_ascii s"
  shows "(\<exists>m. to_osgb36 (Str s) = Inl (Invalid_square m)) \<longleftrightarrow>
     (\<exists>region coords. re_match (upper s) = Some (region, coords) \<and> offset_map region = None)"
  by (auto simp: to_osgb36_def Let_def split: option.splits)

lemma to_osgb36_returns_iff:
  assumes "list_all is_ascii s"
  shows "(\<exists>v. to_osgb36 (Str s) = Inr v) \<longleftrightarrow>
     (\<exists>region coords. re_match (upper s) = Some (region, coords) \<and> offset_map region \<noteq> None)"
  by (auto simp: to_osgb36_def Let_def split: option.splits)

text \<open>
  C1. A reference made of a two-letter prefix \<open>a b\<close> (either case) that the region
  table knows after upper-casing, followed by \<open>h\<close> easting digits and \<open>h\<close> northing
  digits with \<open>h\<close> in \<open>{2,3,4,5}\<close>, decodes to
  \<open>(easting * 10^(5-h) + xOffset, northing * 10^(5-h) + yOffset, 10^(6-h))\<close>.
  \<open>to_osgb36\<close> is a function of its argument alone: the only other thing it reads is
  the constant table.
\<close>

theorem to_osgb36_formula:
  assumes "offset_map (upper [a, b]) = Some (xo, yo)"
    and "length e = h" and "length n = h" and "h \<in> {2, 3, 4, 5}"
    and "list_all is_digit e" and "list_all is_digit n"
  shows "to_osgb36 (Str (a # b # e @ n)) =
           Inr (py_int e * 10 ^ (5 - h) + xo, py_int n * 10 ^ (5 - h) + yo, 10 ^ (6 - h))"
proof -
  have AZ: "is_AZ (upper_char a)" "is_AZ (upper_char b)"
    using offset_map_key [OF assms(1)] by (simp_all add: upper_def)
  have up: "upper (a # b # e @ n) = upper_char a # upper_char b # e @ n"
    using upper_digits [of "e @ n"] assms(5,6) by (simp add: upper_def)
  have "try_alternatives [4, 6, 8, 10] (e @ n) = Some (e @ n)"
    using assms by (intro try_alt [of _ h]) simp_all
  then have m: "re_match (upper (a # b # e @ n)) = Some ([upper_char a, upper_char b], e @ n)"
    using AZ up by simp
  have om: "offset_map [upper_char a, upper_char b] = Some (xo, yo)"
    using assms(1) by (simp add: upper_def)
  show ?thesis
    using assms(2,3) by (simp add: to_osgb36_def m om Let_def)
qed

theorem to_osgb36_formula_witness:
  "offset_map (upper ''nt'') = Some (300000, 600000) \<and>
   to_osgb36 (Str ''nt2755072950'') = Inr (327550, 672950, 10)"
proof -
  have om: "offset_map (upper ''nt'') = Some (300000, 600000)" by code_simp
  have d1: "list_all is_digit ''27550''" by code_simp
  have d2: "list_all is_digit ''72950''" by code_simp
  have p1: "py_int ''27550'' = 27550" by code_simp
  have p2: "py_int ''72950'' = 72950" by code_simp
  have h: "(5::nat) \<in> {2, 3, 4, 5}" by simp
  from to_osgb36_formula [OF om _ _ h d1 d2] p1 p2 om show ?thesis by simp
qed

text \<open>
  C2, as stated, gives the ten-figure reference \<open>NT2755072950\<close> the resolution 1.
  The source computes \<open>10 ** (6 - half_figs)\<close>, which is 10 for five digits a side.
\<close>

theorem to_osgb36_vectors_counterexample:
  "to_osgb36 (Str ''NT2755072950'') \<noteq> Inr (327550, 672950, 1)"
  by code_simp

text \<open>
  C2, amended. \<open>NT2755072950\<close> decodes to \<open>(327550, 672950, 10)\<close>; the three
  six-figure references decode to the stated coordinate pairs, each with the
  resolution 1000.
\<close>

theorem to_osgb36_vectors:
  "to_osgb36 (Str ''NT2755072950'') = Inr (327550, 672950, 10) \<and>
   to_osgb36 (Str ''HU431392'') = Inr (443100, 1139200, 1000) \<and>
   to_osgb36 (Str ''SJ637560'') = Inr (363700, 356000, 1000) \<and>
   to_osgb36 (Str ''TV374354'') = Inr (537400, 35400, 1000)"
  by code_simp

text \<open>
  C3. A valid reference followed by one newline is not two letters followed by 4, 6,
  8 or 10 digits, yet the pattern's \<open>$\<close> accepts it and the decoder returns
  coordinates instead of raising the bad-input BNGError.
\<close>

theorem to_osgb36_trailing_newline:
  "to_osgb36 (Str (''NT1234'' @ [CHR 0x0A])) = Inr (312000, 634000, 10000)"
  by code_simp

section \<open>Properties of the partitioner\<close>

lemma conform_min_floor: "s \<noteq> 0 \<Longrightarrow> conform_min v s = s * of_int \<lfloor>v / s\<rfloor>"
  by (simp add: conform_min_def py_mod_def)

lemma conform_max_floor: "s \<noteq> 0 \<Longrightarrow> conform_max v s = s * of_int (\<lfloor>v / s\<rfloor> + 1)"
  by (simp add: conform_max_def py_mod_def algebra_simps)

lemma zip_flatten:
  "zip (xx_flatten x y) (yy_flatten x y) = concat (map (\<lambda>v. map (\<lambda>u. (u, v)) x) y)"
proof (induction y)
  case Nil
  then show ?case by (simp add: xx_flatten_def yy_flatten_def)
next
  case (Cons v y)
  have "zip x (replicate (length x) v) = map (\<lambda>u. (u, v)) x"
    by (induction x) simp_all
  with Cons show ?case
    by (simp add: xx_flatten_def yy_flatten_def zip_append)
  qed

lemma length_xx: "length (xx_flatten x y) = length y * length x"
  by (induction y) (simp_all add: xx_flatten_def)

lemma length_yy: "length (yy_flatten x y) = length y * length x"
  by (induction y) (simp_all add: yy_flatten_def)

lemma boxes_grid:
  "map (\<lambda>(xmin, ymin, xmax, ymax). box xmin ymin xmax ymax)
       (zip (xx_flatten x y) (zip (yy_flatten x y)
          (zip (map (\<lambda>v. v + s) (xx_flatten x y)) (map (\<lambda>v. v + s) (yy_flatten x y))))) =
   concat (map (\<lambda>v. map (\<lambda>u. box u v (u + s) (v + s)) x) y)"
proof -
  let ?xs = "xx_flatten x y" and ?ys = "yy_flatten x y"
  have len: "length ?xs = length ?ys" by (simp add: length_xx length_yy)
  have "map (\<lambda>(xmin, ymin, xmax, ymax). box xmin ymin xmax ymax)
          (zip ?xs (zip ?ys (zip (map (\<lambda>v. v + s) ?xs) (map (\<lambda>v. v + s) ?ys)))) =
        map (\<lambda>(u, v). box u v (u + s) (v + s)) (zip ?xs ?ys)"
    using len by (intro nth_equalityI) simp_all
  also have "\<dots> = concat (map (\<lambda>v. map (\<lambda>u. box u v (u + s) (v + s)) x) y)"
    by (simp add: zip_flatten map_concat comp_def)
  finally show ?thesis .
qed

lemma nth_grid:
  assumes "i < nx" "j < ny"
  shows "concat (map (\<lambda>j. map (f j) [0..<nx]) [0..<ny]) ! (j * nx + i) = f j i"
  using assms(2)
proof (induction ny)
  case 0
  then show ?case by simp
next
  case (Suc ny)
  have len: "length (concat (map (\<lambda>j. map (f j) [0..<nx]) [0..<ny])) = ny * nx"
    by (induction ny) simp_all
  show ?case
  proof (cases "j < ny")
    case True
    then have "Suc j * nx \<le> ny * nx" by (intro mult_le_mono1) simp
    then have "j * nx + i < ny * nx" using assms(1) by simp
    with True Suc.IH len show ?thesis by (simp add: nth_append)
  next
    case False
    with Suc.prems have "j = ny" by simp
    with len assms(1) show ?thesis by (simp add: nth_append)
  qed
qed

lemma length_grid: "length (concat (map (\<lambda>j. map (f j) [0..<nx]) [0..<ny])) = ny * nx"
  by (induction ny) simp_all


lemma tile_gdf_unfiltered:
  assumes "side_length \<noteq> 0"
    and "total_bounds ops (to_crs ops gdf tile_crs) = (minx, miny, maxx, maxy)"
  shows "tile_gdf ops gdf side_length tile_crs origin_x origin_y False =
     Inr (concat (map (\<lambda>j. map (\<lambda>i. cell_at (conform_min minx (real_of_int side_length))
                                             (conform_min miny (real_of_int side_length))
                                             (real_of_int side_length) i j)
        [0..<nat \<lceil>(conform_max maxx (real_of_int side_length)
                     - conform_min minx (real_of_int side_length)) / real_of_int side_length\<rceil>])
        [0..<nat \<lceil>(conform_max maxy (real_of_int side_length)
                     - conform_min miny (real_of_int side_length)) / real_of_int side_length\<rceil>]))"
  using assms
  by (simp add: tile_gdf_def Let_def boxes_grid arange_def cell_at_def comp_def)

lemma in_cell_at_iff:
  assumes "0 < s"
  shows "in_cell (cell_at lx ly s i j) p \<longleftrightarrow>
           \<lfloor>(fst p - lx) / s\<rfloor> = int i \<and> \<lfloor>(snd p - ly) / s\<rfloor> = int j"
proof -
  have a: "\<And>v l (n::nat). (l + real n * s \<le> v \<and> v < l + real n * s + s) \<longleftrightarrow> \<lfloor>(v - l) / s\<rfloor> = int n"
    using assms by (simp add: floor_eq_iff pos_le_divide_eq pos_divide_less_eq algebra_simps)
  show ?thesis
    using a [of lx i "fst p"] a [of ly j "snd p"]
    by (auto simp: in_cell_def cell_at_def)
qed

lemma span_count:
  assumes "0 < s" "lo \<le> hi"
  shows "conform_max hi s - conform_min lo s =
           real (nat \<lceil>(conform_max hi s - conform_min lo s) / s\<rceil>) * s"
proof -
  have le: "\<lfloor>lo / s\<rfloor> \<le> \<lfloor>hi / s\<rfloor>"
    using assms by (intro floor_mono divide_right_mono) simp_all
  have "(conform_max hi s - conform_min lo s) / s = of_int (\<lfloor>hi / s\<rfloor> + 1 - \<lfloor>lo / s\<rfloor>)"
    using assms(1) by (simp add: conform_min_floor conform_max_floor field_simps)
  moreover have "0 \<le> \<lfloor>hi / s\<rfloor> + 1 - \<lfloor>lo / s\<rfloor>" using le by simp
  ultimately have "real (nat \<lceil>(conform_max hi s - conform_min lo s) / s\<rceil>) =
      (conform_max hi s - conform_min lo s) / s"
    by simp
  then show ?thesis using assms(1) by simp
qed

lemma nth_grid_divmod:
  assumes "k < ny * nx"
  shows "concat (map (\<lambda>j. map (f j) [0..<nx]) [0..<ny]) ! k = f (k div nx) (k mod nx)"
proof -
  have nx: "0 < nx" using assms by (cases nx) simp_all
  have "k div nx < ny" using assms nx by (simp add: less_mult_imp_div_less)
  moreover have "k mod nx < nx" using nx by simp
  ultimately have "concat (map (\<lambda>j. map (f j) [0..<nx]) [0..<ny]) ! (k div nx * nx + k mod nx)
      = f (k div nx) (k mod nx)"
    by (intro nth_grid)
  then show ?thesis by simp
qed

lemma floor_index:
  assumes "0 < s" "l \<le> v" "v < l + real n * s"
  shows "0 \<le> \<lfloor>(v - l) / s\<rfloor> \<and> nat \<lfloor>(v - l) / s\<rfloor> < n"
proof -
  have "0 \<le> (v - l) / s" using assms by simp
  then have nonneg: "0 \<le> \<lfloor>(v - l) / s\<rfloor>" by simp
  have "(v - l) / s < real n" using assms by (simp add: pos_divide_less_eq)
  then have "\<lfloor>(v - l) / s\<rfloor> < int n" by (simp add: floor_less_iff)
  with nonneg show ?thesis by linarith
qed

lemma grid_cover:
  assumes "0 < s"
    and "lx \<le> fst p" "fst p < lx + real nx * s" "ly \<le> snd p" "snd p < ly + real ny * s"
  shows "\<exists>!k. k < length (concat (map (\<lambda>j. map (\<lambda>i. cell_at lx ly s i j) [0..<nx]) [0..<ny])) \<and>
              in_cell (concat (map (\<lambda>j. map (\<lambda>i. cell_at lx ly s i j) [0..<nx]) [0..<ny]) ! k) p"
proof -
  let ?cells = "concat (map (\<lambda>j. map (\<lambda>i. cell_at lx ly s i j) [0..<nx]) [0..<ny])"
  let ?i = "nat \<lfloor>(fst p - lx) / s\<rfloor>" and ?j = "nat \<lfloor>(snd p - ly) / s\<rfloor>"
  have len: "length ?cells = ny * nx" by (rule length_grid)
  have i: "0 \<le> \<lfloor>(fst p - lx) / s\<rfloor>" "?i < nx"
    using floor_index [OF assms(1,2,3)] by simp_all
  have j: "0 \<le> \<lfloor>(snd p - ly) / s\<rfloor>" "?j < ny"
    using floor_index [OF assms(1,4,5)] by simp_all
  have "Suc ?j * nx \<le> ny * nx" using j(2) by (intro mult_le_mono1) simp
  then have k: "?j * nx + ?i < ny * nx" using i(2) by simp
  have "?cells ! (?j * nx + ?i) = cell_at lx ly s ?i ?j"
    using i(2) j(2) by (rule nth_grid)
  then have ex: "in_cell (?cells ! (?j * nx + ?i)) p"
    using i(1) j(1) by (simp add: in_cell_at_iff [OF assms(1)])
  have uniq: "k = ?j * nx + ?i" if "k < length ?cells" "in_cell (?cells ! k) p" for k
  proof -
    from that(1) have "?cells ! k = cell_at lx ly s (k mod nx) (k div nx)"
      by (simp add: len nth_grid_divmod)
    with that(2) have "\<lfloor>(fst p - lx) / s\<rfloor> = int (k mod nx)" "\<lfloor>(snd p - ly) / s\<rfloor> = int (k div nx)"
      by (simp_all add: in_cell_at_iff [OF assms(1)])
    then have "?i = k mod nx" "?j = k div nx" by simp_all
    then have "?j * nx + ?i = k div nx * nx + k mod nx" by simp
    then show ?thesis by simp
  qed
  show ?thesis
  proof (rule ex1I)
    show "?j * nx + ?i < length ?cells \<and> in_cell (?cells ! (?j * nx + ?i)) p"
      using k ex len by simp
  next
    fix k assume "k < length ?cells \<and> in_cell (?cells ! k) p"
    then show "k = ?j * nx + ?i" using uniq by blast
  qed
qed

lemma grid_inside:
  assumes "0 < s"
    and "k < length (concat (map (\<lambda>j. map (\<lambda>i. cell_at lx ly s i j) [0..<nx]) [0..<ny]))"
    and "in_cell (concat (map (\<lambda>j. map (\<lambda>i. cell_at lx ly s i j) [0..<nx]) [0..<ny]) ! k) p"
  shows "lx \<le> fst p \<and> fst p < lx + real nx * s \<and> ly \<le> snd p \<and> snd p < ly + real ny * s"
proof -
  have k: "k < ny * nx" using assms(2) by (simp add: length_grid)
  have nx: "0 < nx" using k by (cases nx) simp_all
  have i: "k mod nx < nx" using nx by simp
  have j: "k div nx < ny" using k nx by (simp add: less_mult_imp_div_less)
  have c: "in_cell (cell_at lx ly s (k mod nx) (k div nx)) p"
    using assms(3) k by (simp add: nth_grid_divmod)
  have up: "\<And>(m::nat) n. m < n \<Longrightarrow> real m * s + s \<le> real n * s"
  proof -
    fix m n :: nat assume "m < n"
    then have "real m + 1 \<le> real n" by simp
    then have "(real m + 1) * s \<le> real n * s" using assms(1) by (intro mult_right_mono) simp_all
    then show "real m * s + s \<le> real n * s" by (simp add: algebra_simps)
  qed
  have lo: "\<And>m::nat. 0 \<le> real m * s" using assms(1) by simp
  have x: "lx + real (k mod nx) * s \<le> fst p" "fst p < lx + real (k mod nx) * s + s"
    and y: "ly + real (k div nx) * s \<le> snd p" "snd p < ly + real (k div nx) * s + s"
    using c by (simp_all add: in_cell_def cell_at_def)
  show ?thesis
    using x y up [OF i] up [OF j] lo [of "k mod nx"] lo [of "k div nx"] by linarith
qed

lemma conform_min_edge:
  assumes "0 < s"
  shows "(\<exists>k::int. conform_min v s = s * of_int k) \<and> conform_min v s \<le> v \<and> v < conform_min v s + s"
proof -
  have "of_int \<lfloor>v / s\<rfloor> * s \<le> v" using assms by (rule floor_divide_lower)
  moreover have "v < (of_int \<lfloor>v / s\<rfloor> + 1) * s" using assms by (rule floor_divide_upper)
  moreover have "conform_min v s = s * of_int \<lfloor>v / s\<rfloor>"
    using assms by (simp add: conform_min_floor)
  ultimately show ?thesis by (auto simp: algebra_simps)
qed

lemma conform_max_edge:
  assumes "0 < s"
  shows "(\<exists>k::int. conform_max v s = s * of_int k) \<and> v < conform_max v s \<and> conform_max v s \<le> v + s"
proof -
  have eq: "conform_max v s = s * of_int (\<lfloor>v / s\<rfloor> + 1)"
    using assms by (simp add: conform_max_floor)
  have lo: "of_int \<lfloor>v / s\<rfloor> * s \<le> v" using assms by (rule floor_divide_lower)
  have hi: "v < (of_int \<lfloor>v / s\<rfloor> + 1) * s" using assms by (rule floor_divide_upper)
  have m: "\<exists>k::int. conform_max v s = s * of_int k" using eq by blast
  have b: "v < conform_max v s" "conform_max v s \<le> v + s"
    using lo hi by (simp_all add: eq algebra_simps)
  from m b show ?thesis by blast
qed

text \<open>
  What the unfiltered partition computes, for a positive side length \<open>s\<close> and a
  bounding box \<open>(minx, miny, maxx, maxy)\<close>: the cells of the box \<open>(lx, ly, hx, hy)\<close>,
  where \<open>lx\<close> and \<open>ly\<close> are the greatest multiples of \<open>s\<close> not above \<open>minx\<close> and
  \<open>miny\<close>, and \<open>hx\<close> and \<open>hy\<close> are the least multiples of \<open>s\<close> strictly above
  \<open>maxx\<close> and \<open>maxy\<close>, all counted from coordinate zero. The cells are the
  \<open>nx * ny\<close> squares of side \<open>s\<close> in row-major order, every point of that box lies in
  exactly one cell and no cell leaves it. A maximum that is itself a multiple of \<open>s\<close>
  therefore gets one column or row more than its nearest multiple gives, and the origin
  arguments play no part.
\<close>

lemma tile_gdf_grid:
  assumes pos: "0 < side_length"
    and bounds: "total_bounds ops (to_crs ops gdf tile_crs) = (minx, miny, maxx, maxy)"
    and wf: "minx \<le> maxx" "miny \<le> maxy"
  shows "\<exists>cells lx ly hx hy nx ny.
      tile_gdf ops gdf side_length tile_crs origin_x origin_y False = Inr cells \<and>
      (\<exists>k::int. lx = real_of_int side_length * of_int k) \<and> lx \<le> minx \<and>
        minx < lx + real_of_int side_length \<and>
      (\<exists>k::int. ly = real_of_int side_length * of_int k) \<and> ly \<le> miny \<and>
        miny < ly + real_of_int side_length \<and>
      (\<exists>k::int. hx = real_of_int side_length * of_int k) \<and> maxx < hx \<and>
        hx \<le> maxx + real_of_int side_length \<and>
      (\<exists>k::int. hy = real_of_int side_length * of_int k) \<and> maxy < hy \<and>
        hy \<le> maxy + real_of_int side_length \<and>
      nx = nat \<lceil>(hx - lx) / real_of_int side_length\<rceil> \<and>
      ny = nat \<lceil>(hy - ly) / real_of_int side_length\<rceil> \<and>
      hx = lx + real nx * real_of_int side_length \<and>
      hy = ly + real ny * real_of_int side_length \<and>
      length cells = nx * ny \<and>
      (\<forall>i j. i < nx \<and> j < ny \<longrightarrow>
         cells ! (j * nx + i) = cell_at lx ly (real_of_int side_length) i j) \<and>
      (\<forall>p. lx \<le> fst p \<and> fst p < hx \<and> ly \<le> snd p \<and> snd p < hy \<longrightarrow>
         (\<exists>!k. k < length cells \<and> in_cell (cells ! k) p)) \<and>
      (\<forall>k p. k < length cells \<and> in_cell (cells ! k) p \<longrightarrow>
         lx \<le> fst p \<and> fst p < hx \<and> ly \<le> snd p \<and> snd p < hy)"
proof -
  define s where "s = real_of_int side_length"
  define lx where "lx = conform_min minx s"
  define ly where "ly = conform_min miny s"
  define hx where "hx = conform_max maxx s"
  define hy where "hy = conform_max maxy s"
  define nx where "nx = nat \<lceil>(hx - lx) / s\<rceil>"
  define ny where "ny = nat \<lceil>(hy - ly) / s\<rceil>"
  define cells where
    "cells = concat (map (\<lambda>j. map (\<lambda>i. cell_at lx ly s i j) [0..<nx]) [0..<ny])"
  have s: "0 < s" using pos by (simp add: s_def)
  have run: "tile_gdf ops gdf side_length tile_crs origin_x origin_y False = Inr cells"
    using pos tile_gdf_unfiltered [of side_length ops gdf tile_crs minx miny maxx maxy, OF _ bounds]
    by (simp add: cells_def nx_def ny_def lx_def ly_def hx_def hy_def s_def)
  have ex: "hx = lx + real nx * s" "hy = ly + real ny * s"
    using span_count [OF s wf(1)] span_count [OF s wf(2)]
    by (simp_all add: nx_def ny_def lx_def ly_def hx_def hy_def)
  have len: "length cells = nx * ny"
    by (simp add: cells_def length_grid mult.commute)
  have nth: "\<forall>i j. i < nx \<and> j < ny \<longrightarrow> cells ! (j * nx + i) = cell_at lx ly s i j"
    by (simp add: cells_def nth_grid)
  have cover: "\<forall>p. lx \<le> fst p \<and> fst p < hx \<and> ly \<le> snd p \<and> snd p < hy \<longrightarrow>
         (\<exists>!k. k < length cells \<and> in_cell (cells ! k) p)"
    unfolding cells_def ex using grid_cover [OF s] by blast
  have inside: "\<forall>k p. k < length cells \<and> in_cell (cells ! k) p \<longrightarrow>
         lx \<le> fst p \<and> fst p < hx \<and> ly \<le> snd p \<and> snd p < hy"
    unfolding cells_def ex using grid_inside [OF s] by blast
  note edges = conform_min_edge [OF s, of minx] conform_min_edge [OF s, of miny]
    conform_max_edge [OF s, of maxx] conform_max_edge [OF s, of maxy]
  show ?thesis
    apply (rule exI [of _ cells], rule exI [of _ lx], rule exI [of _ ly])
    apply (rule exI [of _ hx], rule exI [of _ hy], rule exI [of _ nx], rule exI [of _ ny])
    using run ex len nth cover inside edges
    unfolding s_def [symmetric] lx_def [symmetric] ly_def [symmetric] hx_def [symmetric]
      hy_def [symmetric] nx_def [symmetric] ny_def [symmetric]
    by blast
qed

lemma tile_gdf_grid_example:
  "(0::int) < 50 \<and>
   total_bounds two_rect_ops (to_crs two_rect_ops (box 10 10 40 40, box 60 60 90 90) 27700)
     = (10, 10, 90, 90) \<and>
   tile_gdf two_rect_ops (box 10 10 40 40, box 60 60 90 90) 50 27700 0 0 False =
     Inr [box 0 0 50 50, box 50 0 100 50, box 0 50 50 100, box 50 50 100 100] \<and>
   (\<exists>cells nx ny. tile_gdf two_rect_ops (box 10 10 40 40, box 60 60 90 90) 50 27700 0 0 False
        = Inr cells \<and> length cells = nx * ny)"
proof -
  have p: "(0::int) < 50" by simp
  have b: "total_bounds two_rect_ops (to_crs two_rect_ops (box 10 10 40 40, box 60 60 90 90) 27700)
     = (10, 10, 90, 90)" by (simp add: two_rect_ops_def)
  have r: "tile_gdf two_rect_ops (box 10 10 40 40, box 60 60 90 90) 50 27700 0 0 False =
     Inr [box 0 0 50 50, box 50 0 100 50, box 0 50 50 100, box 50 50 100 100]" by code_simp
  from tile_gdf_grid [OF p b, of 0 0] have
    "\<exists>cells nx ny. tile_gdf two_rect_ops (box 10 10 40 40, box 60 60 90 90) 50 27700 0 0 False
        = Inr cells \<and> length cells = nx * ny"
    by simp blast
  with p b r show ?thesis by blast
qed

text \<open>
  C4. The unfiltered partition is to expand the bounding box outward to the nearest
  multiples of the side length relative to the origin, and to return the cells that
  tile that box. \<open>tile_gdf\<close> does not. A boundary whose bounding box
  \<open>(0, 0, 100, 100)\<close> already lies on multiples of the side length 50 is expanded all
  the same, and the call returns 9 cells where the nearest multiples give 4. With the
  origin \<open>(10, 10)\<close> the bounding box \<open>(10, 10, 60, 60)\<close> is aligned to that origin and
  is one cell, but the call returns the 4 cells of \<open>(0, 0, 100, 100)\<close>.
\<close>

theorem tile_gdf_expansion_diverges:
  "tile_gdf two_rect_ops (box 0 0 100 50, box 0 50 100 100) 50 27700 0 0 False =
     Inr [box 0 0 50 50, box 50 0 100 50, box 100 0 150 50,
          box 0 50 50 100, box 50 50 100 100, box 100 50 150 100,
          box 0 100 50 150, box 50 100 100 150, box 100 100 150 150] \<and>
   map_sum id length (tile_gdf two_rect_ops (box 0 0 100 50, box 0 50 100 100) 50 27700 0 0 False)
     = Inr 9 \<and>
   spec_cell_count (0, 0, 100, 100) 50 (0, 0) = 4 \<and>
   map_sum id length (tile_gdf two_rect_ops (box 10 10 30 30, box 40 40 60 60) 50 27700 10 10 False)
     = Inr 4 \<and>
   spec_cell_count (10, 10, 60, 60) 50 (10, 10) = 1"
  by code_simp

text \<open>
  C5. Where the unfiltered partition returns \<open>cells\<close>, the filtered partition returns
  the cells of that sequence, in the same order, that intersect the union of the
  repaired boundary: a subset of the unfiltered result, holding a candidate cell
  exactly when it intersects.
\<close>

theorem tile_gdf_filter:
  assumes "tile_gdf ops gdf side_length tile_crs origin_x origin_y False = Inr cells"
  shows "\<exists>kept. tile_gdf ops gdf side_length tile_crs origin_x origin_y True = Inr kept \<and>
           kept = filter (\<lambda>c. intersects ops c
                     (union_all ops (buffer ops (make_valid ops (to_crs ops gdf tile_crs)) 0))) cells \<and>
           set kept \<subseteq> set cells \<and>
           (\<forall>c. c \<in> set kept \<longleftrightarrow> c \<in> set cells \<and> intersects ops c
                     (union_all ops (buffer ops (make_valid ops (to_crs ops gdf tile_crs)) 0)))"
  using assms
  by (auto simp: tile_gdf_def Let_def split: prod.splits if_splits)

theorem tile_gdf_filter_witness:
  "tile_gdf two_rect_ops (box 10 10 40 40, box 60 60 90 90) 50 27700 0 0 False =
     Inr [box 0 0 50 50, box 50 0 100 50, box 0 50 50 100, box 50 50 100 100] \<and>
   tile_gdf two_rect_ops (box 10 10 40 40, box 60 60 90 90) 50 27700 0 0 True =
     Inr [box 0 0 50 50, box 50 50 100 100]"
proof -
  have r: "tile_gdf two_rect_ops (box 10 10 40 40, box 60 60 90 90) 50 27700 0 0 False =
     Inr [box 0 0 50 50, box 50 0 100 50, box 0 50 50 100, box 50 50 100 100]" by code_simp
  from tile_gdf_filter [OF r] r show ?thesis
    by (simp add: two_rect_ops_def rect_meets_def)
qed

text \<open>
  C10. The two origin arguments have no effect on the result of the partition.
\<close>

theorem tile_gdf_origin_irrelevant:
  "tile_gdf ops gdf side_length tile_crs ox1 oy1 filter_empty =
   tile_gdf ops gdf side_length tile_crs ox2 oy2 filter_empty"
  by (simp add: tile_gdf_def)

section \<open>Properties of the harvest\<close>

lemma mask_select_Cons:
  "mask_select (r # rs) (b # bs) = (if b then r # mask_select rs bs else mask_select rs bs)"
  by (simp add: mask_select_def)

lemma mask_select_Nil: "mask_select [] bs = []"
  by (simp add: mask_select_def)

lemma drop_from_set:
  "set (mask_select rs (map Not (duplicated_from seen rs))) = set rs - set seen"
  by (induction rs arbitrary: seen) (auto simp: mask_select_Cons mask_select_Nil)

lemma drop_from_distinct:
  "distinct (mask_select rs (map Not (duplicated_from seen rs)))"
  by (induction rs arbitrary: seen) (simp_all add: mask_select_Cons mask_select_Nil drop_from_set)

lemma drop_duplicated_set: "set (drop_duplicated df) = set df"
  by (simp add: drop_duplicated_def duplicated_def drop_from_set)

lemma drop_duplicated_distinct: "distinct (drop_duplicated df)"
  by (simp add: drop_duplicated_def duplicated_def drop_from_distinct)

lemma decode_all_nth:
  "decode_all ts = Inr ds \<Longrightarrow>
     length ds = length ts \<and> (\<forall>i<length ts. to_osgb36 (ts ! i) = Inr (ds ! i))"
proof (induction ts arbitrary: ds)
  case Nil
  then show ?case by simp
next
  case (Cons t ts)
  from Cons.prems obtain d ds' where d: "to_osgb36 t = Inr d" "decode_all ts = Inr ds'" "ds = d # ds'"
    by (auto split: sum.splits)
  from Cons.IH [OF d(2)] d(1,3) show ?case
    by (auto simp: nth_Cons split: nat.splits)
qed

lemma decode_all_total:
  "\<forall>t\<in>set ts. \<exists>d. to_osgb36 t = Inr d \<Longrightarrow> \<exists>ds. decode_all ts = Inr ds"
  by (induction ts) auto

lemma parse_geometry_form:
  assumes "parse_geometry df = Inr g"
  shows "\<exists>ds. decode_all (map tile_id df) = Inr ds \<and> length ds = length df \<and>
           g = \<lparr>frame_rows = zip df (map (\<lambda>(x, y, r). box (real_of_int x) (real_of_int y)
                      (real_of_int x + real_of_int r / 2) (real_of_int y + real_of_int r / 2)) ds),
                 crs = ''EPSG:27700''\<rparr>"
proof -
  from assms obtain ds where ds: "decode_all (map tile_id df) = Inr ds"
    by (auto simp: parse_geometry_def split: sum.splits)
  from decode_all_nth [OF ds] have len: "length ds = length df" by simp
  let ?x = "map (\<lambda>(x, y, r). real_of_int x) ds" and ?y = "map (\<lambda>(x, y, r). real_of_int y) ds"
  let ?h = "map (\<lambda>r. r / 2) (map (\<lambda>(x, y, r). real_of_int r) ds)"
  have "map (\<lambda>(xmin, ymin, xmax, ymax). box xmin ymin xmax ymax)
          (zip ?x (zip ?y (zip (map (\<lambda>(a, b). a + b) (zip ?x ?h))
                               (map (\<lambda>(a, b). a + b) (zip ?y ?h))))) =
        map (\<lambda>(x, y, r). box (real_of_int x) (real_of_int y)
               (real_of_int x + real_of_int r / 2) (real_of_int y + real_of_int r / 2)) ds"
    by (intro nth_equalityI) (simp_all add: split_beta)
  with assms ds len show ?thesis
    by (auto simp: parse_geometry_def Let_def split: if_splits)
qed

lemma parse_geometry_nth:
  assumes "parse_geometry df = Inr g" and "i < length df"
    and "to_osgb36 (tile_id (df ! i)) = Inr (x, y, res)"
  shows "frame_rows g ! i =
           (df ! i, box (real_of_int x) (real_of_int y)
                        (real_of_int x + real_of_int res / 2) (real_of_int y + real_of_int res / 2))"
proof -
  from parse_geometry_form [OF assms(1)] obtain ds where
    ds: "decode_all (map tile_id df) = Inr ds" and len: "length ds = length df" and
    g: "g = \<lparr>frame_rows = zip df (map (\<lambda>(x, y, r). box (real_of_int x) (real_of_int y)
                      (real_of_int x + real_of_int r / 2) (real_of_int y + real_of_int r / 2)) ds),
                 crs = ''EPSG:27700''\<rparr>" by blast
  from decode_all_nth [OF ds] assms(2,3) have "ds ! i = (x, y, res)" by simp
  then show ?thesis using assms(2) len by (simp add: g)
qed

lemma parse_geometry_rows:
  assumes "parse_geometry df = Inr g"
  shows "map fst (frame_rows g) = df" and "crs g = ''EPSG:27700''"
  using parse_geometry_form [OF assms] by (auto simp: map_fst_zip)

lemma parse_geometry_total:
  assumes "df \<noteq> []" and "\<forall>r\<in>set df. \<exists>d. to_osgb36 (tile_id r) = Inr d"
  shows "\<exists>g. parse_geometry df = Inr g"
proof -
  from assms(2) have "\<forall>t\<in>set (map tile_id df). \<exists>d. to_osgb36 t = Inr d" by simp
  then obtain ds where ds: "decode_all (map tile_id df) = Inr ds"
    using decode_all_total by blast
  with decode_all_nth [OF ds] assms(1) have "ds \<noteq> []" by auto
  with ds show ?thesis by (simp add: parse_geometry_def Let_def)
qed

text \<open>
  C6. Dropping the duplicated rows leaves every row of the frame exactly once: the
  result has no two equal rows and the same rows as the frame, so a row that two cells
  returned is there once. The index that is written has these rows, each with its
  geometry, and no two of its rows are equal.
\<close>

theorem harvest_dedup:
  "distinct (drop_duplicated df) \<and> set (drop_duplicated df) = set df \<and>
   (\<forall>g. products_index df = Inr g \<longrightarrow>
      map fst (frame_rows g) = drop_duplicated df \<and> distinct (frame_rows g))"
proof -
  have "map fst (frame_rows g) = drop_duplicated df \<and> distinct (frame_rows g)"
    if "products_index df = Inr g" for g
  proof -
    from that have "map fst (frame_rows g) = drop_duplicated df"
      by (simp add: products_index_def parse_geometry_rows)
    moreover from this have "distinct (map fst (frame_rows g))"
      by (simp add: drop_duplicated_distinct)
    then have "distinct (frame_rows g)" by (simp add: distinct_map)
    ultimately show ?thesis by simp
  qed
  then show ?thesis
    by (simp add: drop_duplicated_distinct drop_duplicated_set)
qed

theorem harvest_dedup_witness:
  "products_index
     [\<lparr>tile_id = Str ''SU3510'', columns = ''a''\<rparr>,
      \<lparr>tile_id = Str ''SU4010'', columns = ''b''\<rparr>,
      \<lparr>tile_id = Str ''SU3510'', columns = ''a''\<rparr>] =
   Inr \<lparr>frame_rows =
          [(\<lparr>tile_id = Str ''SU3510'', columns = ''a''\<rparr>, box 435000 110000 440000 115000),
           (\<lparr>tile_id = Str ''SU4010'', columns = ''b''\<rparr>, box 440000 110000 445000 115000)],
        crs = ''EPSG:27700''\<rparr> \<and>
   drop_duplicated
     [\<lparr>tile_id = Str ''SU3510'', columns = ''a''\<rparr>,
      \<lparr>tile_id = Str ''SU4010'', columns = ''b''\<rparr>,
      \<lparr>tile_id = Str ''SU3510'', columns = ''a''\<rparr>] =
   [\<lparr>tile_id = Str ''SU3510'', columns = ''a''\<rparr>, \<lparr>tile_id = Str ''SU4010'', columns = ''b''\<rparr>]"
proof -
  define df where "df = [\<lparr>tile_id = Str ''SU3510'', columns = ''a''\<rparr>,
      \<lparr>tile_id = Str ''SU4010'', columns = ''b''\<rparr>,
      \<lparr>tile_id = Str ''SU3510'', columns = ''a''\<rparr>]"
  define g where "g = \<lparr>frame_rows =
          [(\<lparr>tile_id = Str ''SU3510'', columns = ''a''\<rparr>, box 435000 110000 440000 115000),
           (\<lparr>tile_id = Str ''SU4010'', columns = ''b''\<rparr>, box 440000 110000 445000 115000)],
        crs = ''EPSG:27700''\<rparr>"
  have d0: "to_osgb36 (Str ''SU3510'') = Inr (435000, 110000, 10000)" by code_simp
  have d1: "to_osgb36 (Str ''SU4010'') = Inr (440000, 110000, 10000)" by code_simp
  have dd: "drop_duplicated df =
      [\<lparr>tile_id = Str ''SU3510'', columns = ''a''\<rparr>, \<lparr>tile_id = Str ''SU4010'', columns = ''b''\<rparr>]"
    by (simp add: df_def drop_duplicated_def duplicated_def mask_select_def)
  have r: "products_index df = Inr g"
    by (simp add: products_index_def dd parse_geometry_def d0 d1 g_def)
  from harvest_dedup [of df] r have "map fst (frame_rows g) = drop_duplicated df" by blast
  with r dd show ?thesis unfolding df_def g_def by blast
qed

text \<open>
  C7. On a frame that is not empty and whose tile references all decode,
  \<open>parse_geometry\<close> returns a frame in EPSG:27700 with one row per input row; a row
  whose reference decodes to \<open>(x, y, resolution)\<close> gets the box from \<open>(x, y)\<close> to
  \<open>(x + resolution / 2, y + resolution / 2)\<close>.
\<close>

theorem parse_geometry_half_resolution:
  "(df \<noteq> [] \<and> (\<forall>r\<in>set df. \<exists>d. to_osgb36 (tile_id r) = Inr d) \<longrightarrow>
      (\<exists>g. parse_geometry df = Inr g)) \<and>
   (\<forall>g i x y res.
      parse_geometry df = Inr g \<and> i < length df \<and>
      to_osgb36 (tile_id (df ! i)) = Inr (x, y, res) \<longrightarrow>
        crs g = ''EPSG:27700'' \<and> length (frame_rows g) = length df \<and>
        frame_rows g ! i =
          (df ! i, box (real_of_int x) (real_of_int y)
                       (real_of_int x + real_of_int res / 2)
                       (real_of_int y + real_of_int res / 2)))"
proof -
  have len: "length (frame_rows g) = length df" if "parse_geometry df = Inr g" for g
    using parse_geometry_rows(1) [OF that] by (metis length_map)
  show ?thesis
    using parse_geometry_total [of df] parse_geometry_nth [of df] parse_geometry_rows(2) [of df] len
    by blast
qed

theorem parse_geometry_half_resolution_witness:
  "to_osgb36 (Str ''nt2755072950'') = Inr (327550, 672950, 10) \<and>
   (\<exists>g. parse_geometry [\<lparr>tile_id = Str ''SU3510'', columns = ()\<rparr>,
                          \<lparr>tile_id = Str ''nt2755072950'', columns = ()\<rparr>] = Inr g \<and>
        crs g = ''EPSG:27700'' \<and>
        frame_rows g ! 1 =
          (\<lparr>tile_id = Str ''nt2755072950'', columns = ()\<rparr>, box 327550 672950 327555 672955))"
proof -
  let ?df = "[\<lparr>tile_id = Str ''SU3510'', columns = ()\<rparr>, \<lparr>tile_id = Str ''nt2755072950'', columns = ()\<rparr>]"
  have d0: "to_osgb36 (Str ''SU3510'') = Inr (435000, 110000, 10000)" by code_simp
  have d1: "to_osgb36 (Str ''nt2755072950'') = Inr (327550, 672950, 10)" by code_simp
  have ne: "?df \<noteq> []" by simp
  have all: "\<forall>r\<in>set ?df. \<exists>d. to_osgb36 (tile_id r) = Inr d" using d0 d1 by simp
  note pg = parse_geometry_half_resolution [of ?df]
  from pg ne all obtain g where g: "parse_geometry ?df = Inr g" by blast
  have i: "(1::nat) < length ?df" by simp
  have e: "to_osgb36 (tile_id (?df ! 1)) = Inr (327550, 672950, 10)" using d1 by simp
  from pg g i e have "crs g = ''EPSG:27700'' \<and>
      frame_rows g ! 1 = (?df ! 1, box (real_of_int 327550) (real_of_int 672950)
         (real_of_int 327550 + real_of_int 10 / 2) (real_of_int 672950 + real_of_int 10 / 2))"
    by blast
  then have "crs g = ''EPSG:27700'' \<and>
      frame_rows g ! 1 = (\<lparr>tile_id = Str ''nt2755072950'', columns = ()\<rparr>, box 327550 672950 327555 672955)"
    by simp
  with g d1 show ?thesis by blast
qed

section \<open>Properties of the tile endpoint\<close>

lemma get_tile_negative_zoom: "z < 0 \<Longrightarrow> get_tile env x y z = Inl InvalidZoomError"
  by (simp add: get_tile_def)

lemma get_tile_empty_glob:
  "0 \<le> z \<Longrightarrow> cogs env = [] \<Longrightarrow> get_tile env x y z = Inl IndexError"
  by (simp add: get_tile_def)

lemma get_tile_read_raises:
  "0 \<le> z \<Longrightarrow> cogs env = p # ps \<Longrightarrow> read_window env p (x, y, z) 256 = Inl e \<Longrightarrow>
     get_tile env x y z = Inr blank_response"
  by (simp add: get_tile_def)

lemma blank_response_transparent:
  "status blank_response = 200 \<and> length (body blank_response) = 256 \<and>
   (\<forall>i<256. length (body blank_response ! i) = 256 \<and>
      (\<forall>j<256. body blank_response ! i ! j = [0, 0, 0, 0]))"
proof -
  have "replicate 4 (0::8 word) = [0, 0, 0, 0]"
    by (simp add: numeral_eq_Suc)
  then show ?thesis by (simp add: blank_response_def)
qed

lemma get_tile_read_returns:
  "0 \<le> z \<Longrightarrow> cogs env = p # ps \<Longrightarrow> read_window env p (x, y, z) 256 = Inr data \<Longrightarrow>
     \<exists>r. get_tile env x y z = Inr r \<and> status r = 200 \<and> body r = composite 256 data"
  by (simp add: get_tile_def)

lemma clip_u8_range: "uint (clip_u8 v) = min (max v 0) 255"
proof -
  have "0 \<le> min (max v 0) 255" "min (max v 0) 255 < 2 ^ 8" by simp_all
  then show ?thesis
    unfolding clip_u8_def by (simp add: uint_word_of_int take_bit_int_eq_self)
qed

text \<open>
  C8. When the glob over \<open>data/cogs\<close> finds no file, taking its first element raises
  IndexError before the \<open>try\<close> block is entered: the exception leaves the handler and
  no transparent image is returned.
\<close>

theorem get_tile_no_source:
  "get_tile \<lparr>cogs = [], read_window = (\<lambda>p t n. Inl (Raised ''not reached''))\<rparr> 0 0 0
     = Inl IndexError"
  by (simp add: get_tile_def)

text \<open>
  C9. For a read of three bands of shape \<open>n\<close> by \<open>n\<close>, the pixel at row \<open>i\<close> and
  column \<open>j\<close> of the composited image is the three clipped samples followed by an
  alpha that is 0 when all three clipped samples are 0 and 255 otherwise; a clipped
  sample is the integer \<open>min (max v 0) 255\<close>.
\<close>

theorem composite_alpha:
  assumes "data = [r, g, b]"
    and "\<forall>band\<in>set data. length band = n \<and> (\<forall>row\<in>set band. length row = n)"
    and "i < n" and "j < n"
  shows "composite n data ! i ! j =
           [clip_u8 (r ! i ! j), clip_u8 (g ! i ! j), clip_u8 (b ! i ! j),
            (if clip_u8 (r ! i ! j) = 0 \<and> clip_u8 (g ! i ! j) = 0 \<and> clip_u8 (b ! i ! j) = 0
             then 0 else 255)] \<and>
         (\<forall>v. uint (clip_u8 v) = min (max v 0) 255)"
proof -
  have sh: "\<And>band. band \<in> {r, g, b} \<Longrightarrow>
      map (map clip_u8) band ! i ! j = clip_u8 (band ! i ! j)"
    using assms by (auto simp: nth_map)
  have "composite n data ! i ! j =
           [clip_u8 (r ! i ! j), clip_u8 (g ! i ! j), clip_u8 (b ! i ! j),
            (if clip_u8 (r ! i ! j) = 0 \<and> clip_u8 (g ! i ! j) = 0 \<and> clip_u8 (b ! i ! j) = 0
             then 0 else 255)]"
    using assms(3,4) sh by (simp add: composite_def assms(1) Let_def)
  then show ?thesis using clip_u8_range by blast
qed

theorem composite_alpha_witness:
  "composite 2 [[[300, 0], [0, 0]], [[-5, 0], [0, 7]], [[0, 0], [1, 0]]] ! 0 ! 0 = [255, 0, 0, 255] \<and>
   composite 2 [[[300, 0], [0, 0]], [[-5, 0], [0, 7]], [[0, 0], [1, 0]]] ! 0 ! 1 = [0, 0, 0, 0]"
proof -
  let ?r = "[[300, 0], [0, 0::int]]" and ?g = "[[-5, 0], [0, 7::int]]" and ?b = "[[0, 0], [1, 0::int]]"
  have d: "[?r, ?g, ?b] = [?r, ?g, ?b]" by simp
  have sh: "\<forall>band\<in>set [?r, ?g, ?b]. length band = 2 \<and> (\<forall>row\<in>set band. length row = 2)"
    by simp
  have c: "clip_u8 300 = 255" "clip_u8 (-5) = 0" "clip_u8 0 = 0" by (simp_all add: clip_u8_def)
  from composite_alpha [OF d sh, of 0 0] composite_alpha [OF d sh, of 0 1] c
  show ?thesis by simp
qed

end
